theory Spec2Isabelle
  imports Main "HOL-Library.Multiset" "HOL-Library.Char_ord"
begin

section \<open>The query filter of \<^verbatim>\<open>QueriesFilter.filter\<close> (src/sample.py, lines 40--97)\<close>

text \<open>
  The filter receives a record query \<^verbatim>\<open>qs\<close> and the raw value of the \<^verbatim>\<open>queries\<close>
  parameter. It splits the value on commas, resolves every piece against a Redis
  index of sets (key: configured prefix, underscore, word; members: record ids) and
  restricts \<^verbatim>\<open>qs\<close> with \<^verbatim>\<open>id__in\<close>. Python strings are modelled as HOL strings, one
  \<open>char\<close> per code point below 256; record ids are natural numbers. Calls to
  \<^verbatim>\<open>log.info\<close> only write to the log and are left out.
\<close>

subsection \<open>The string methods the filter calls\<close>

text \<open>\<^verbatim>\<open>str.isspace\<close> on one character, for the code points below 256: TAB, LF, VT, FF, CR,
  FS, GS, RS, US, SPACE, NEL and NBSP.\<close>

definition isspace :: "char \<Rightarrow> bool" where
  "isspace c = (c \<in> {CHR 0x09, CHR 0x0A, CHR 0x0B, CHR 0x0C, CHR 0x0D,
                      CHR 0x1C, CHR 0x1D, CHR 0x1E, CHR 0x1F, CHR 0x20, CHR 0x85, CHR 0xA0})"

text \<open>\<^verbatim>\<open>s.strip()\<close>: whitespace removed at both ends.\<close>

definition strip :: "string \<Rightarrow> string" where
  "strip s = rev (dropWhile isspace (rev (dropWhile isspace s)))"

text \<open>\<^verbatim>\<open>s.startswith(p)\<close>.\<close>

definition startswith :: "string \<Rightarrow> string \<Rightarrow> bool" where
  "startswith s p = (take (length p) s = p)"

text \<open>\<^verbatim>\<open>s.replace(old, new)\<close> for a one-character \<^verbatim>\<open>old\<close>: every occurrence of the
  character is replaced, there is no count argument in the source.\<close>

definition replace :: "string \<Rightarrow> char \<Rightarrow> string \<Rightarrow> string" where
  "replace s old new = concat (map (\<lambda>c. if c = old then new else [c]) s)"

text \<open>\<^verbatim>\<open>s.split(sep)\<close> for a one-character separator: the pieces between the separators,
  empty pieces kept; the empty string gives one empty piece.\<close>

fun split_on :: "string \<Rightarrow> char \<Rightarrow> string list" where
  "split_on [] sep = [[]]"
| "split_on (c # cs) sep =
     (if c = sep then [] # split_on cs sep
      else (case split_on cs sep of
              [] \<Rightarrow> [[c]]
            | w # ws \<Rightarrow> (c # w) # ws))"

subsection \<open>Python's \<^verbatim>\<open>set.intersection(*args)\<close> and \<^verbatim>\<open>set.union(*args)\<close>\<close>

text \<open>Both are unbound methods called with an unpacked list: the first element is the
  receiver, the others are the arguments. With an empty list there is no receiver and
  Python raises \<^verbatim>\<open>TypeError\<close>.\<close>

datatype error = TypeError

definition set_intersection :: "'a set list \<Rightarrow> error + 'a set" where
  "set_intersection args = (case args of [] \<Rightarrow> Inl TypeError | s # ss \<Rightarrow> Inr (foldl (\<inter>) s ss))"

definition set_union :: "'a set list \<Rightarrow> error + 'a set" where
  "set_union args = (case args of [] \<Rightarrow> Inl TypeError | s # ss \<Rightarrow> Inr (foldl (\<union>) s ss))"

subsection \<open>The Redis index\<close>

text \<open>
  The index lives in Redis, outside the repository. It is modelled as the finite table of
  its set-valued keys, each with its members; the filter only reads it. The three
  commands the filter issues are \<^verbatim>\<open>SMEMBERS key\<close> (the members, none for a missing key),
  \<^verbatim>\<open>KEYS pattern\<close> (the keys matching a glob pattern) and \<^verbatim>\<open>SUNION key ...\<close> (the union
  of the members of the given keys).
\<close>

type_synonym ident = nat

type_synonym redis = "(string \<times> ident set) list"

text \<open>Glob patterns of \<^verbatim>\<open>KEYS\<close>, as the Redis documentation describes them: \<^verbatim>\<open>*\<close> matches
  any run of characters, \<^verbatim>\<open>?\<close> one character, \<^verbatim>\<open>[ae]\<close>, \<^verbatim>\<open>[a-z]\<close> and \<^verbatim>\<open>[^e]\<close> one
  character of a class, and a backslash takes the next character literally. Redis matches
  the bytes of the encoded key and pattern; the model matches one \<open>char\<close> at a time, which
  is the same for ASCII keys and patterns, and for any pattern made of literal characters
  and a final star. A \<^verbatim>\<open>?\<close> or a class against a character outside ASCII is outside the
  model.\<close>

datatype glob = Star | AnyChar | Lit char | Class bool "(char \<times> char) list"

fun glob_items :: "string \<Rightarrow> glob list"
  and glob_class :: "bool \<Rightarrow> (char \<times> char) list \<Rightarrow> string \<Rightarrow> glob list" where
  "glob_items [] = []"
| "glob_items (p # ps) =
     (if p = CHR ''*'' then Star # glob_items ps
      else if p = CHR ''?'' then AnyChar # glob_items ps
      else if p = CHR ''['' then
        (case ps of
           [] \<Rightarrow> glob_class False [] []
         | q # qs \<Rightarrow> if q = CHR ''^'' then glob_class True [] qs else glob_class False [] (q # qs))
      else if p = CHR 0x5C then
        (case ps of [] \<Rightarrow> [Lit p] | q # qs \<Rightarrow> Lit q # glob_items qs)
      else Lit p # glob_items ps)"
| "glob_class neg rs [] = [Class neg rs]"
| "glob_class neg rs [p] =
     (if p = CHR '']'' then [Class neg rs] else [Class neg (rs @ [(p, p)])])"
| "glob_class neg rs [p, q] =
     (if p = CHR 0x5C then [Class neg (rs @ [(q, q)])]
      else if p = CHR '']'' then Class neg rs # glob_items [q]
      else glob_class neg (rs @ [(p, p)]) [q])"
| "glob_class neg rs (p # q # r # ps) =
     (if p = CHR 0x5C then glob_class neg (rs @ [(q, q)]) (r # ps)
      else if p = CHR '']'' then Class neg rs # glob_items (q # r # ps)
      else if q = CHR ''-'' then glob_class neg (rs @ [(min p r, max p r)]) ps
      else glob_class neg (rs @ [(p, p)]) (q # r # ps))"

fun glob_match :: "glob list \<Rightarrow> string \<Rightarrow> bool" where
  "glob_match [] s = (s = [])"
| "glob_match (Star # gs) [] = glob_match gs []"
| "glob_match (Star # gs) (c # cs) = (glob_match gs (c # cs) \<or> glob_match (Star # gs) cs)"
| "glob_match (g # gs) [] = False"
| "glob_match (AnyChar # gs) (c # cs) = glob_match gs cs"
| "glob_match (Lit x # gs) (c # cs) = (x = c \<and> glob_match gs cs)"
| "glob_match (Class neg rs # gs) (c # cs) =
     ((list_ex (\<lambda>(lo, hi). lo \<le> c \<and> c \<le> hi) rs = (neg = False)) \<and> glob_match gs cs)"

definition stringmatch :: "string \<Rightarrow> string \<Rightarrow> bool" where
  "stringmatch pattern key = glob_match (glob_items pattern) key"

definition smembers :: "redis \<Rightarrow> string \<Rightarrow> ident set" where
  "smembers r key = (case map_of r key of None \<Rightarrow> {} | Some ids \<Rightarrow> ids)"

definition keys :: "redis \<Rightarrow> string \<Rightarrow> string list" where
  "keys r pattern = filter (stringmatch pattern) (map fst r)"

definition sunion :: "redis \<Rightarrow> string list \<Rightarrow> ident set" where
  "sunion r ks = \<Union> (set (map (smembers r) ks))"

text \<open>The commands sent to the store, in the order of the calls; \<open>Connect\<close> is
  \<^verbatim>\<open>cache.client.connect()\<close>.\<close>

datatype command = Connect | Smembers string | Keys string | Sunion "string list"

subsection \<open>The connection, the two lists and the loop over the pieces (lines 46--82)\<close>

text \<open>The three branches of the loop body. The branch is chosen by the first character
  of the piece as \<^verbatim>\<open>split\<close> produced it (\<open>classify\<close>, lines 51--52, 60--61 and
  72--73); the word is computed inside the branch. \<open>resolve\<close> is the rest of each branch:
  the calls to the store and the \<^verbatim>\<open>append\<close>, or the \<^verbatim>\<open>continue\<close> that skips it. \<open>loop\<close>
  starts from the state after line 49: connected, both lists empty.\<close>

datatype query_term = ExactInclude string | PrefixExclude string | PrefixInclude string

definition classify :: "string \<Rightarrow> query_term" where
  "classify word =
     (if startswith word ''!'' then ExactInclude (strip (replace word (CHR ''!'') ''''))
      else if startswith word ''-'' then PrefixExclude (strip (replace word (CHR ''-'') ''''))
      else PrefixInclude (strip word))"

record lists =
  ids_include :: "ident set list"
  ids_exclude :: "ident set list"
  calls :: "command list"

fun resolve :: "string \<Rightarrow> redis \<Rightarrow> lists \<Rightarrow> query_term \<Rightarrow> lists" where
  "resolve QUERYINDEX_PREFIX r st (ExactInclude word) =
     (let key = QUERYINDEX_PREFIX @ ''_'' @ word;
          ids = smembers r key
      in st\<lparr>ids_include := ids_include st @ [ids], calls := calls st @ [Smembers key]\<rparr>)"
| "resolve QUERYINDEX_PREFIX r st (PrefixExclude word) =
     (let pattern = QUERYINDEX_PREFIX @ ''_'' @ word @ ''*'';
          ks = keys r pattern
      in if ks = [] then st\<lparr>calls := calls st @ [Keys pattern]\<rparr>
         else st\<lparr>ids_exclude := ids_exclude st @ [sunion r ks],
                 calls := calls st @ [Keys pattern, Sunion ks]\<rparr>)"
| "resolve QUERYINDEX_PREFIX r st (PrefixInclude word) =
     (let pattern = QUERYINDEX_PREFIX @ ''_'' @ word @ ''*'';
          ks = keys r pattern
      in if ks = [] then st\<lparr>calls := calls st @ [Keys pattern]\<rparr>
         else st\<lparr>ids_include := ids_include st @ [sunion r ks],
                 calls := calls st @ [Keys pattern, Sunion ks]\<rparr>)"

definition loop_body :: "string \<Rightarrow> redis \<Rightarrow> lists \<Rightarrow> string \<Rightarrow> lists" where
  "loop_body QUERYINDEX_PREFIX r st word = resolve QUERYINDEX_PREFIX r st (classify word)"

definition loop :: "string \<Rightarrow> redis \<Rightarrow> string list \<Rightarrow> lists" where
  "loop QUERYINDEX_PREFIX r queries =
     foldl (loop_body QUERYINDEX_PREFIX r)
       \<lparr>ids_include = [], ids_exclude = [], calls = [Connect]\<rparr> queries"

subsection \<open>The combination of the lists and the result (lines 84--97)\<close>

text \<open>A record query is lazy: \<^verbatim>\<open>qs.filter(id__in=ids)\<close> and \<^verbatim>\<open>qs.exclude(id__in=ids)\<close>
  build a new query from \<^verbatim>\<open>qs\<close>. \<open>Records ids\<close> is a query that selects the records
  with these ids.\<close>

datatype queryset =
  Records "ident set"
| Filter_id_in queryset "ident set"
| Exclude_id_in queryset "ident set"

fun selected :: "queryset \<Rightarrow> ident set" where
  "selected (Records ids) = ids"
| "selected (Filter_id_in qs ids) = selected qs \<inter> ids"
| "selected (Exclude_id_in qs ids) = selected qs - ids"

definition combine :: "queryset \<Rightarrow> ident set list \<Rightarrow> ident set list \<Rightarrow> error + queryset" where
  "combine qs inc exc =
     (if inc \<noteq> [] then
        (case set_intersection inc of
           Inl e \<Rightarrow> Inl e
         | Inr good_ids \<Rightarrow>
             if exc \<noteq> [] then
               (case set_union exc of
                  Inl e \<Rightarrow> Inl e
                | Inr bad_ids \<Rightarrow> Inr (Filter_id_in qs (good_ids - bad_ids)))
             else Inr (Filter_id_in qs good_ids))
      else
        (case set_union exc of
           Inl e \<Rightarrow> Inl e
         | Inr bad_ids \<Rightarrow> Inr (Exclude_id_in qs bad_ids)))"

text \<open>The method itself. The second component lists the commands sent to the store.\<close>

definition QueriesFilter_filter ::
  "string \<Rightarrow> redis \<Rightarrow> queryset \<Rightarrow> string option \<Rightarrow> (error + queryset) \<times> command list" where
  "QueriesFilter_filter QUERYINDEX_PREFIX r qs value =
     (case value of
        None \<Rightarrow> (Inr qs, [])
      | Some v \<Rightarrow>
          if v = [] then (Inr qs, [])
          else
            (let st = loop QUERYINDEX_PREFIX r (split_on v (CHR '',''))
             in (combine qs (ids_include st) (ids_exclude st), calls st)))"

subsection \<open>Auxiliary notions for the proofs\<close>

text \<open>What one piece of the query appends to each list: the loop body run on empty
  lists.\<close>

definition include_part :: "string \<Rightarrow> redis \<Rightarrow> string \<Rightarrow> ident set list" where
  "include_part p r w =
     ids_include (loop_body p r \<lparr>ids_include = [], ids_exclude = [], calls = []\<rparr> w)"

definition exclude_part :: "string \<Rightarrow> redis \<Rightarrow> string \<Rightarrow> ident set list" where
  "exclude_part p r w =
     ids_exclude (loop_body p r \<lparr>ids_include = [], ids_exclude = [], calls = []\<rparr> w)"

text \<open>The characters that are not literal in a glob pattern.\<close>

definition glob_special :: "char \<Rightarrow> bool" where
  "glob_special c = (c \<in> {CHR ''*'', CHR ''?'', CHR ''['', CHR 0x5C})"

text \<open>The index of the running example, with the prefix \<open>ns\<close>, and a record query
  over six records.\<close>

abbreviation example_index :: redis where
  "example_index \<equiv> [(''ns_cat'', {1, 2, 3}), (''ns_category'', {3, 4}), (''ns_dog'', {5})]"

abbreviation example_qs :: queryset where
  "example_qs \<equiv> Records {1, 2, 3, 4, 5, 6}"

section \<open>Basic facts\<close>

lemmas eval_defs =
  QueriesFilter_filter_def loop_def loop_body_def classify_def startswith_def replace_def
  strip_def isspace_def keys_def stringmatch_def sunion_def smembers_def combine_def
  set_intersection_def set_union_def Let_def

subsection \<open>Python's set methods as big intersection and union\<close>

lemma foldl_Int_Inter: "foldl (\<inter>) s ss = \<Inter> (set (s # ss))"
  by (induction ss arbitrary: s) auto

lemma foldl_Un_Union: "foldl (\<union>) s ss = \<Union> (set (s # ss))"
  by (induction ss arbitrary: s) auto

lemma set_intersection_Inter: "args \<noteq> [] \<Longrightarrow> set_intersection args = Inr (\<Inter> (set args))"
  by (cases args) (simp_all add: set_intersection_def foldl_Int_Inter)

lemma set_union_Union: "args \<noteq> [] \<Longrightarrow> set_union args = Inr (\<Union> (set args))"
  by (cases args) (simp_all add: set_union_def foldl_Un_Union)

lemma combine_closed:
  "combine qs inc exc =
     (if inc \<noteq> [] then Inr (Filter_id_in qs (\<Inter> (set inc) - \<Union> (set exc)))
      else if exc \<noteq> [] then Inr (Exclude_id_in qs (\<Union> (set exc)))
      else Inl TypeError)"
proof (cases "exc = []")
  case True
  then show ?thesis
    by (simp add: combine_def set_intersection_Inter set_union_def)
next
  case False
  then show ?thesis
    by (simp add: combine_def set_intersection_Inter set_union_Union)
qed

subsection \<open>The lists of the loop, piece by piece\<close>

lemma loop_body_include: "ids_include (loop_body p r st w) = ids_include st @ include_part p r w"
  by (cases "classify w") (simp_all add: loop_body_def include_part_def Let_def)

lemma loop_body_exclude: "ids_exclude (loop_body p r st w) = ids_exclude st @ exclude_part p r w"
  by (cases "classify w") (simp_all add: loop_body_def exclude_part_def Let_def)

lemma foldl_include:
  "ids_include (foldl (loop_body p r) st ws) = ids_include st @ concat (map (include_part p r) ws)"
  by (induction ws arbitrary: st) (simp_all add: loop_body_include)

lemma foldl_exclude:
  "ids_exclude (foldl (loop_body p r) st ws) = ids_exclude st @ concat (map (exclude_part p r) ws)"
  by (induction ws arbitrary: st) (simp_all add: loop_body_exclude)

lemma loop_include: "ids_include (loop p r ws) = concat (map (include_part p r) ws)"
  by (simp add: loop_def foldl_include)

lemma loop_exclude: "ids_exclude (loop p r ws) = concat (map (exclude_part p r) ws)"
  by (simp add: loop_def foldl_exclude)

subsection \<open>Splitting and trimming\<close>

lemma split_on_not_Nil: "split_on v sep \<noteq> []"
  by (induction v) (auto split: list.splits)

lemma split_on_single_empty: "split_on v sep = [[]] \<Longrightarrow> v = []"
  by (cases v) (auto simp: split_on_not_Nil split: list.splits if_splits)

lemma strip_Nil_all_space:
  assumes "strip w = []"
  shows "list_all isspace w"
proof -
  from assms have tail: "list_all isspace (dropWhile isspace w)"
    by (simp add: strip_def list_all_iff)
  have "dropWhile isspace w = []"
  proof (cases "dropWhile isspace w")
    case Nil
    then show ?thesis .
  next
    case (Cons x xs)
    then have "\<not> isspace x"
      using hd_dropWhile [of isspace w] by simp
    with tail Cons show ?thesis by simp
  qed
  then show ?thesis
    by (simp add: list_all_iff)
qed

lemma strip_leading_space: "isspace c \<Longrightarrow> strip (c # w) = strip w"
  by (simp add: strip_def)

lemma blank_is_prefix_include:
  assumes "strip w = []"
  shows "classify w = PrefixInclude []"
proof -
  have sp: "list_all isspace w"
    using assms by (rule strip_Nil_all_space)
  have "\<not> isspace (CHR ''!'')" and "\<not> isspace (CHR ''-'')"
    by (simp_all add: isspace_def)
  with sp have "\<not> startswith w ''!''" and "\<not> startswith w ''-''"
    by (cases w; auto simp: startswith_def)+
  with assms show ?thesis
    by (simp add: classify_def)
qed

subsection \<open>A pattern without special characters, followed by a star, is a prefix test\<close>

lemma glob_items_literal:
  "\<not> list_ex glob_special s \<Longrightarrow> glob_items (s @ ps) = map Lit s @ glob_items ps"
  by (induction s) (auto simp: glob_special_def)

lemma glob_match_literal:
  "glob_match (map Lit s @ gs) k = (take (length s) k = s \<and> glob_match gs (drop (length s) k))"
proof (induction s arbitrary: k)
  case Nil
  then show ?case by simp
next
  case (Cons c s)
  then show ?case by (cases k) auto
qed

lemma glob_match_Star: "glob_match [Star] k"
  by (induction k) auto

lemma stringmatch_prefix:
  assumes "\<not> list_ex glob_special s"
  shows "stringmatch (s @ ''*'') k = startswith k s"
proof -
  have "glob_items (s @ ''*'') = map Lit s @ [Star]"
    using assms by (simp add: glob_items_literal)
  then show ?thesis
    by (simp add: stringmatch_def startswith_def glob_match_literal glob_match_Star)
qed

subsection \<open>Pieces that add nothing, and the order of the pieces\<close>

lemma loop_without_piece:
  assumes "include_part p r w = []" and "exclude_part p r w = []"
  shows "ids_include (loop p r (ws @ w # ws')) = ids_include (loop p r (ws @ ws'))"
    and "ids_exclude (loop p r (ws @ w # ws')) = ids_exclude (loop p r (ws @ ws'))"
  using assms by (simp_all add: loop_include loop_exclude)

lemma same_pieces_same_lists:
  assumes "set ws = set ws'"
  shows "set (ids_include (loop p r ws)) = set (ids_include (loop p r ws'))"
    and "set (ids_exclude (loop p r ws)) = set (ids_exclude (loop p r ws'))"
  using assms by (simp_all add: loop_include loop_exclude)

lemma combine_cong_set:
  assumes "set inc = set inc'" and "set exc = set exc'"
  shows "combine qs inc exc = combine qs inc' exc'"
proof -
  from assms have "(inc = []) = (inc' = [])" and "(exc = []) = (exc' = [])"
    by (metis set_empty)+
  with assms show ?thesis
    by (simp add: combine_closed)
qed

section \<open>The claims\<close>

text \<open>
  Claim C1. A non-empty query none of whose pieces adds a set to either list should give
  the decision to drop nothing. The code instead reaches \<^verbatim>\<open>set.union(*ids_exclude)\<close> on
  line 95 with an empty list, which raises \<^verbatim>\<open>TypeError\<close>: here for the query \<^verbatim>\<open>zzz\<close>,
  a word that no key of the index begins with.
\<close>

theorem C1_no_match_raises_TypeError:
  "ids_include (loop ''ns'' example_index (split_on ''zzz'' (CHR '',''))) = []
   \<and> ids_exclude (loop ''ns'' example_index (split_on ''zzz'' (CHR '',''))) = []
   \<and> fst (QueriesFilter_filter ''ns'' example_index example_qs (Some ''zzz'')) = Inl TypeError"
  by (simp add: eval_defs)

text \<open>
  Claim C2. For a non-empty query: when the inclusion list is not empty the result keeps
  only the ids in the intersection of its sets, minus the union of the exclusion sets when
  there are any; when the inclusion list is empty and the exclusion list is not, the
  result drops the ids in the union of the exclusion sets.
\<close>

theorem C2_decision_rule:
  assumes "v \<noteq> []"
  shows "(ids_include (loop p r (split_on v (CHR '',''))) \<noteq> [] \<longrightarrow>
            fst (QueriesFilter_filter p r qs (Some v)) =
              Inr (Filter_id_in qs
                (if ids_exclude (loop p r (split_on v (CHR '',''))) = []
                 then \<Inter> (set (ids_include (loop p r (split_on v (CHR '','')))))
                 else \<Inter> (set (ids_include (loop p r (split_on v (CHR '',''))))) -
                      \<Union> (set (ids_exclude (loop p r (split_on v (CHR '',''))))))))
       \<and> (ids_include (loop p r (split_on v (CHR '',''))) = [] \<and>
          ids_exclude (loop p r (split_on v (CHR '',''))) \<noteq> [] \<longrightarrow>
            fst (QueriesFilter_filter p r qs (Some v)) =
              Inr (Exclude_id_in qs (\<Union> (set (ids_exclude (loop p r (split_on v (CHR '',''))))))))"
  using assms by (simp add: QueriesFilter_filter_def Let_def combine_closed)

theorem C2_decision_rule_witness:
  "fst (QueriesFilter_filter ''ns'' example_index example_qs (Some ''cat,!cat,-category'')) =
     Inr (Filter_id_in example_qs {1, 2})
   \<and> fst (QueriesFilter_filter ''ns'' example_index example_qs (Some ''cat'')) =
     Inr (Filter_id_in example_qs {1, 2, 3, 4})
   \<and> fst (QueriesFilter_filter ''ns'' example_index example_qs (Some ''-cat,-dog'')) =
     Inr (Exclude_id_in example_qs {1, 2, 3, 4, 5})"
proof -
  have a: "ids_include (loop ''ns'' example_index (split_on ''cat,!cat,-category'' (CHR '',''))) =
        [{1, 2, 3, 4}, {1, 2, 3}]"
    "ids_exclude (loop ''ns'' example_index (split_on ''cat,!cat,-category'' (CHR '',''))) =
        [{3, 4}]"
    by (auto simp: eval_defs)
  have b: "ids_include (loop ''ns'' example_index (split_on ''cat'' (CHR '',''))) = [{1, 2, 3, 4}]"
    "ids_exclude (loop ''ns'' example_index (split_on ''cat'' (CHR '',''))) = []"
    by (auto simp: eval_defs)
  have c: "ids_include (loop ''ns'' example_index (split_on ''-cat,-dog'' (CHR '',''))) = []"
    "ids_exclude (loop ''ns'' example_index (split_on ''-cat,-dog'' (CHR '',''))) =
        [{1, 2, 3, 4}, {5}]"
    by (auto simp: eval_defs)
  show ?thesis
    using C2_decision_rule [of "''cat,!cat,-category''" "''ns''" example_index example_qs]
      C2_decision_rule [of "''cat''" "''ns''" example_index example_qs]
      C2_decision_rule [of "''-cat,-dog''" "''ns''" example_index example_qs]
    unfolding a b c
    by auto
qed

text \<open>
  Claim C3, as stated: a piece that is empty after trimming adds nothing to either list,
  whatever the index holds. It fails for the piece of one space on the example index: the
  piece is a prefix term with the empty word, its pattern \<^verbatim>\<open>ns_*\<close> matches every key,
  and the union of all sets is appended to the inclusion list.
\<close>

theorem C3_blank_piece_counterexample:
  "strip '' '' = []
   \<and> ids_include (loop_body ''ns'' example_index
         \<lparr>ids_include = [], ids_exclude = [], calls = []\<rparr> '' '') = [{1, 2, 3, 4, 5}]
   \<and> fst (QueriesFilter_filter ''ns'' example_index example_qs (Some '' '')) =
       Inr (Filter_id_in example_qs {1, 2, 3, 4, 5})"
  by (auto simp: eval_defs)

text \<open>
  Claim C3, amended: a piece that is empty after trimming is resolved as a prefix
  inclusion with the empty word. It never adds to the exclusion list. It scans with the
  pattern made of the prefix, an underscore and a star, and appends the union of the sets
  under the keys found to the inclusion list; it adds nothing only when the scan finds no
  key. For a prefix without glob characters the scan finds every key that begins with the
  prefix and the underscore.
\<close>

theorem C3_blank_piece_scans_whole_namespace:
  assumes "strip w = []"
  shows "ids_exclude (loop_body p r st w) = ids_exclude st
       \<and> ids_include (loop_body p r st w) =
           ids_include st @
             (if keys r (p @ ''_*'') = [] then [] else [sunion r (keys r (p @ ''_*''))])
       \<and> (\<not> list_ex glob_special p \<longrightarrow>
            keys r (p @ ''_*'') = filter (\<lambda>k. startswith k (p @ ''_'')) (map fst r))"
proof -
  have cl: "classify w = PrefixInclude []"
    using assms by (rule blank_is_prefix_include)
  have scan: "keys r (p @ ''_*'') = filter (\<lambda>k. startswith k (p @ ''_'')) (map fst r)"
    if "\<not> list_ex glob_special p"
  proof -
    from that have "\<not> list_ex glob_special (p @ ''_'')"
      by (simp add: glob_special_def)
    then have "stringmatch ((p @ ''_'') @ ''*'') k = startswith k (p @ ''_'')" for k
      by (rule stringmatch_prefix)
    then have "stringmatch (p @ ''_*'') = (\<lambda>k. startswith k (p @ ''_''))"
      by (intro ext) simp
    then show ?thesis
      by (simp add: keys_def)
  qed
  from cl scan show ?thesis
    by (simp add: loop_body_def Let_def)
qed

theorem C3_blank_piece_scans_whole_namespace_witness:
  "strip '' '' = []
   \<and> \<not> list_ex glob_special ''ns''
   \<and> keys example_index ''ns_*'' = [''ns_cat'', ''ns_category'', ''ns_dog'']
   \<and> ids_include (loop_body ''ns'' example_index
         \<lparr>ids_include = [], ids_exclude = [], calls = []\<rparr> '' '') =
       [sunion example_index [''ns_cat'', ''ns_category'', ''ns_dog'']]
   \<and> ids_exclude (loop_body ''ns'' example_index
         \<lparr>ids_include = [], ids_exclude = [], calls = []\<rparr> '' '') = []"
proof -
  have blank: "strip '' '' = []"
    by (simp add: strip_def isspace_def)
  have plain: "\<not> list_ex glob_special ''ns''"
    by (simp add: glob_special_def)
  have scan: "keys example_index ''ns_*'' = [''ns_cat'', ''ns_category'', ''ns_dog'']"
    by (simp add: keys_def stringmatch_def)
  show ?thesis
    using C3_blank_piece_scans_whole_namespace [OF blank, of "''ns''" example_index
        "\<lparr>ids_include = [], ids_exclude = [], calls = []\<rparr>"] blank plain scan
    by simp
qed

text \<open>
  Claim C4. A piece should be trimmed before its first character is inspected, so that a
  piece whose first non-blank character is \<^verbatim>\<open>!\<close> or \<^verbatim>\<open>-\<close> is an exact inclusion or a
  prefix exclusion even after leading blanks. The code calls \<^verbatim>\<open>strip\<close> in every branch,
  so blanks around a plain word and after a marker are tolerated, but it tests
  \<^verbatim>\<open>startswith\<close> on the untrimmed piece: the pieces \<^verbatim>\<open> !foo\<close> and \<^verbatim>\<open> -foo\<close> take the
  last branch and keep the marker in the word. The query \<^verbatim>\<open>cat, -category\<close> therefore
  loses its exclusion and keeps the ids 1 to 4, where \<^verbatim>\<open>cat,-category\<close> keeps 1 and 2.
\<close>

theorem C4_marker_after_blank_is_missed:
  "classify '' !foo'' = PrefixInclude ''!foo''
   \<and> classify '' -foo'' = PrefixInclude ''-foo''
   \<and> classify '' dog'' = PrefixInclude ''dog''
   \<and> classify ''- category '' = PrefixExclude ''category''
   \<and> fst (QueriesFilter_filter ''ns'' example_index example_qs (Some ''cat, -category'')) =
       Inr (Filter_id_in example_qs {1, 2, 3, 4})
   \<and> fst (QueriesFilter_filter ''ns'' example_index example_qs (Some ''cat,-category'')) =
       Inr (Filter_id_in example_qs {1, 2})"
  by (auto simp: eval_defs)

text \<open>
  Claim C5. Only the leading marker of an exact inclusion or a prefix exclusion should be
  removed, so that \<^verbatim>\<open>-foo-bar\<close> gives the word \<^verbatim>\<open>foo-bar\<close>. The code calls
  \<^verbatim>\<open>replace\<close> without a count and removes every occurrence: the word is
  \<^verbatim>\<open>foobar\<close>, and the query \<^verbatim>\<open>-foo-bar\<close> drops the records indexed under
  \<^verbatim>\<open>foobar\<close> instead of those under \<^verbatim>\<open>foo-bar\<close>.
\<close>

theorem C5_every_marker_is_removed:
  "classify ''-foo-bar'' = PrefixExclude ''foobar''
   \<and> classify ''!a!b'' = ExactInclude ''ab''
   \<and> fst (QueriesFilter_filter ''ns'' [(''ns_foo-bar'', {1}), (''ns_foobar'', {2})]
            example_qs (Some ''-foo-bar'')) = Inr (Exclude_id_in example_qs {2})"
  by (simp add: eval_defs)

text \<open>
  Claim C6. A prefix inclusion or prefix exclusion whose scan finds no key leaves both
  lists as they were: no empty set is appended. A piece that is such a term can therefore
  be taken out of the query without changing either list or the combined result, so it
  neither empties the intersection of the other inclusion sets nor changes the union of
  the exclusion sets.
\<close>

theorem C6_prefix_term_without_keys_is_omitted:
  assumes "t = PrefixInclude x \<or> t = PrefixExclude x"
    and "keys r (p @ ''_'' @ x @ ''*'') = []"
  shows "ids_include (resolve p r st t) = ids_include st
       \<and> ids_exclude (resolve p r st t) = ids_exclude st
       \<and> (classify w = t \<longrightarrow>
            ids_include (loop p r (ws @ w # ws')) = ids_include (loop p r (ws @ ws'))
          \<and> ids_exclude (loop p r (ws @ w # ws')) = ids_exclude (loop p r (ws @ ws'))
          \<and> combine qs (ids_include (loop p r (ws @ w # ws')))
                        (ids_exclude (loop p r (ws @ w # ws'))) =
            combine qs (ids_include (loop p r (ws @ ws'))) (ids_exclude (loop p r (ws @ ws'))))"
proof -
  have same: "ids_include (resolve p r s t) = ids_include s
      \<and> ids_exclude (resolve p r s t) = ids_exclude s" for s
    using assms by auto
  have "include_part p r w = [] \<and> exclude_part p r w = []" if "classify w = t"
    using that same by (simp add: include_part_def exclude_part_def loop_body_def)
  then show ?thesis
    using same by (simp add: loop_without_piece)
qed

theorem C6_prefix_term_without_keys_is_omitted_witness:
  "keys example_index ''ns_zzz*'' = []
   \<and> classify '' zzz'' = PrefixInclude ''zzz''
   \<and> classify ''-zzz'' = PrefixExclude ''zzz''
   \<and> ids_include (loop ''ns'' example_index [''cat'', '' zzz'', ''-dog'']) =
       ids_include (loop ''ns'' example_index [''cat'', ''-dog''])
   \<and> ids_exclude (loop ''ns'' example_index [''cat'', ''-zzz'', ''-dog'']) =
       ids_exclude (loop ''ns'' example_index [''cat'', ''-dog''])
   \<and> combine example_qs (ids_include (loop ''ns'' example_index [''cat'', '' zzz'', ''-dog'']))
       (ids_exclude (loop ''ns'' example_index [''cat'', '' zzz'', ''-dog''])) =
     Inr (Filter_id_in example_qs {1, 2, 3, 4})
   \<and> combine example_qs (ids_include (loop ''ns'' example_index [''cat'', ''-zzz'', ''-dog'']))
       (ids_exclude (loop ''ns'' example_index [''cat'', ''-zzz'', ''-dog''])) =
     Inr (Filter_id_in example_qs {1, 2, 3, 4})"
proof -
  have scan: "keys example_index (''ns'' @ ''_'' @ ''zzz'' @ ''*'') = []"
    by (simp add: keys_def stringmatch_def)
  have inc: "classify '' zzz'' = PrefixInclude ''zzz''"
    by (simp add: classify_def startswith_def strip_def isspace_def)
  have exc: "classify ''-zzz'' = PrefixExclude ''zzz''"
    by (simp add: classify_def startswith_def replace_def strip_def isspace_def)
  have without: "combine example_qs (ids_include (loop ''ns'' example_index [''cat'', ''-dog'']))
       (ids_exclude (loop ''ns'' example_index [''cat'', ''-dog''])) =
     Inr (Filter_id_in example_qs {1, 2, 3, 4})"
    by (auto simp: eval_defs)
  show ?thesis
    using C6_prefix_term_without_keys_is_omitted [OF _ scan,
        where t = "PrefixInclude ''zzz''" and w = "'' zzz''" and ws = "[''cat'']"
          and ws' = "[''-dog'']" and qs = example_qs and
          st = "\<lparr>ids_include = [], ids_exclude = [], calls = []\<rparr>"]
      C6_prefix_term_without_keys_is_omitted [OF _ scan,
        where t = "PrefixExclude ''zzz''" and w = "''-zzz''" and ws = "[''cat'']"
          and ws' = "[''-dog'']" and qs = example_qs and
          st = "\<lparr>ids_include = [], ids_exclude = [], calls = []\<rparr>"]
      scan inc exc without
    by simp
qed

text \<open>
  Claim C7. Two query strings whose comma-separated pieces are the same multiset give the
  same result, a restricted record query or an error, on every index.
\<close>

theorem C7_order_of_pieces_is_irrelevant:
  assumes "mset (split_on v (CHR '','')) = mset (split_on v' (CHR '',''))"
  shows "fst (QueriesFilter_filter p r qs (Some v)) = fst (QueriesFilter_filter p r qs (Some v'))"
proof -
  from assms have pieces: "set (split_on v (CHR '','')) = set (split_on v' (CHR '',''))"
    by (rule mset_eq_setD)
  have empty: "(v = []) = (v' = [])"
  proof
    assume "v = []"
    with assms have "split_on v' (CHR '','') = [[]]"
      by simp
    then show "v' = []"
      by (rule split_on_single_empty)
  next
    assume "v' = []"
    with assms have "split_on v (CHR '','') = [[]]"
      by simp
    then show "v = []"
      by (rule split_on_single_empty)
  qed
  show ?thesis
  proof (cases "v = []")
    case True
    with empty show ?thesis
      by simp
  next
    case False
    with empty have "v' \<noteq> []"
      by simp
    with False show ?thesis
      using combine_cong_set [OF same_pieces_same_lists [OF pieces]]
      by (simp add: QueriesFilter_filter_def Let_def)
  qed
qed

theorem C7_order_of_pieces_is_irrelevant_witness:
  "mset (split_on ''cat,-dog,!cat'' (CHR '','')) = mset (split_on ''!cat,cat,-dog'' (CHR '',''))
   \<and> fst (QueriesFilter_filter ''ns'' example_index example_qs (Some ''cat,-dog,!cat'')) =
       Inr (Filter_id_in example_qs {1, 2, 3})
   \<and> fst (QueriesFilter_filter ''ns'' example_index example_qs (Some ''!cat,cat,-dog'')) =
       Inr (Filter_id_in example_qs {1, 2, 3})"
proof -
  have perm: "mset (split_on ''cat,-dog,!cat'' (CHR '','')) =
      mset (split_on ''!cat,cat,-dog'' (CHR '',''))"
    by (simp add: add.commute add.left_commute)
  have one: "fst (QueriesFilter_filter ''ns'' example_index example_qs (Some ''cat,-dog,!cat'')) =
       Inr (Filter_id_in example_qs {1, 2, 3})"
    by (auto simp: eval_defs)
  show ?thesis
    using C7_order_of_pieces_is_irrelevant [OF perm, of "''ns''" example_index example_qs] perm one
    by simp
qed

text \<open>
  Claim C8. An exact inclusion with word \<open>w\<close> issues one command, \<^verbatim>\<open>SMEMBERS\<close> on the key
  made of the prefix, an underscore and \<open>w\<close>, and no scan. It appends the members of that
  key to the inclusion list, the empty set when the key is missing, and leaves the
  exclusion list alone. Every id it contributes is stored under exactly that key, so an
  id stored only under a longer key is not contributed.
\<close>

theorem C8_exact_include_is_one_lookup:
  "ids_include (resolve p r st (ExactInclude w)) = ids_include st @ [smembers r (p @ ''_'' @ w)]
   \<and> ids_exclude (resolve p r st (ExactInclude w)) = ids_exclude st
   \<and> calls (resolve p r st (ExactInclude w)) = calls st @ [Smembers (p @ ''_'' @ w)]
   \<and> (map_of r (p @ ''_'' @ w) = None \<longrightarrow> smembers r (p @ ''_'' @ w) = {})
   \<and> (i \<in> smembers r (p @ ''_'' @ w) \<longrightarrow> (\<exists>ids. (p @ ''_'' @ w, ids) \<in> set r \<and> i \<in> ids))"
  by (auto simp: smembers_def Let_def split: option.splits dest: map_of_SomeD)

theorem C8_exact_include_is_one_lookup_witness:
  "map_of example_index ''ns_ca'' = None
   \<and> ids_include (resolve ''ns'' example_index
        \<lparr>ids_include = [], ids_exclude = [], calls = []\<rparr> (ExactInclude ''ca'')) = [{}]
   \<and> ids_include (resolve ''ns'' example_index
        \<lparr>ids_include = [], ids_exclude = [], calls = []\<rparr> (ExactInclude ''cat'')) = [{1, 2, 3}]
   \<and> calls (resolve ''ns'' example_index
        \<lparr>ids_include = [], ids_exclude = [], calls = []\<rparr> (ExactInclude ''cat'')) =
       [Smembers ''ns_cat'']
   \<and> 3 \<in> smembers example_index ''ns_cat''
   \<and> (''ns_cat'', {1, 2, 3}) \<in> set example_index
   \<and> 4 \<notin> smembers example_index ''ns_cat''"
proof -
  have absent: "map_of example_index (''ns'' @ ''_'' @ ''ca'') = None"
    by simp
  have member: "3 \<in> smembers example_index (''ns'' @ ''_'' @ ''cat'')"
    by (simp add: smembers_def)
  show ?thesis
    using C8_exact_include_is_one_lookup [of "''ns''" example_index
        "\<lparr>ids_include = [], ids_exclude = [], calls = []\<rparr>" "''ca''" 3]
      C8_exact_include_is_one_lookup [of "''ns''" example_index
        "\<lparr>ids_include = [], ids_exclude = [], calls = []\<rparr>" "''cat''" 3]
      absent member
    by (simp add: smembers_def)
qed

text \<open>
  Claim C9. For an absent value and for the empty string the filter returns the record
  query it was given, raises nothing and sends no command to the store, not even the
  connection.
\<close>

theorem C9_empty_value_is_noop:
  "QueriesFilter_filter p r qs None = (Inr qs, [])
   \<and> QueriesFilter_filter p r qs (Some []) = (Inr qs, [])"
  by (simp add: QueriesFilter_filter_def)

text \<open>
  Claim C10. When one piece of the query is an exact inclusion whose key is missing from
  the index, the empty set is a member of the inclusion list, the result keeps only the
  ids of the empty set whatever the other pieces are, and so selects no record.
\<close>

theorem C10_absent_exact_key_empties_result:
  assumes "w \<in> set (split_on v (CHR '',''))"
    and "classify w = ExactInclude x"
    and "map_of r (p @ ''_'' @ x) = None"
  shows "{} \<in> set (ids_include (loop p r (split_on v (CHR '',''))))
       \<and> fst (QueriesFilter_filter p r qs (Some v)) = Inr (Filter_id_in qs {})
       \<and> selected (Filter_id_in qs {}) = {}"
proof -
  have part: "include_part p r w = [{}]"
    using assms(2,3) by (simp add: include_part_def loop_body_def smembers_def)
  with assms(1) have mem: "{} \<in> set (ids_include (loop p r (split_on v (CHR '',''))))"
    by (force simp: loop_include)
  then have ne: "ids_include (loop p r (split_on v (CHR '',''))) \<noteq> []"
    by auto
  from mem have inter: "\<Inter> (set (ids_include (loop p r (split_on v (CHR '',''))))) = {}"
    by auto
  have "v \<noteq> []"
  proof
    assume "v = []"
    with assms(1) have "w = []"
      by simp
    with assms(2) show False
      by (simp add: classify_def startswith_def)
  qed
  with mem ne inter show ?thesis
    by (simp add: QueriesFilter_filter_def Let_def combine_closed)
qed

theorem C10_absent_exact_key_empties_result_witness:
  "''!bird'' \<in> set (split_on ''cat,!bird,-dog'' (CHR '',''))
   \<and> classify ''!bird'' = ExactInclude ''bird''
   \<and> map_of example_index ''ns_bird'' = None
   \<and> fst (QueriesFilter_filter ''ns'' example_index example_qs (Some ''cat,!bird,-dog'')) =
       Inr (Filter_id_in example_qs {})"
proof -
  have piece: "''!bird'' \<in> set (split_on ''cat,!bird,-dog'' (CHR '',''))"
    by simp
  have cl: "classify ''!bird'' = ExactInclude ''bird''"
    by (simp add: classify_def startswith_def replace_def strip_def isspace_def)
  have absent: "map_of example_index (''ns'' @ ''_'' @ ''bird'') = None"
    by simp
  show ?thesis
    using C10_absent_exact_key_empties_result [OF piece cl absent, of example_qs] piece cl absent
    by simp
qed

end
